theory Spec2Isabelle
  imports Complex_Main "HOL-Library.Product_Lexorder"
begin

section \<open>The runtime's Date, as far as StorageRent.ts uses it\<close>

text \<open>
  StorageRent.ts reads a Date only through \<open>getFullYear\<close>, \<open>getMonth\<close> (0-based),
  \<open>getDate\<close> and \<open>getTime\<close>, compares Dates with the relational operators and builds
  them with \<open>new Date(year, month, day)\<close>. A Date is modelled by its local calendar
  fields and the milliseconds since local midnight. The numbers of the source are
  modelled as follows: rents and rates are reals (no binary rounding), the due day and
  the change frequency are integers.

  Assumptions on the runtime: the proleptic Gregorian calendar, a time zone without
  clock shifts, valid (non-NaN) Dates, and years outside the constructor's legacy range
  0..99.
\<close>

record Date =
  getFullYear :: int
  getMonth :: int
  getDate :: int
  getMilliseconds :: int

text \<open>
  The time value orders Dates chronologically; on the calendar fields that is the
  lexicographic order of year, month, day and time of day, which is all the source
  uses \<open>getTime\<close> and the relational operators on Dates for.
\<close>

definition getTime :: "Date \<Rightarrow> int \<times> int \<times> int \<times> int" where
  "getTime d = (getFullYear d, getMonth d, getDate d, getMilliseconds d)"

definition leapYear :: "int \<Rightarrow> bool" where
  "leapYear y \<longleftrightarrow> y mod 4 = 0 \<and> (y mod 100 \<noteq> 0 \<or> y mod 400 = 0)"

definition daysInMonth :: "int \<Rightarrow> int \<Rightarrow> int" where
  "daysInMonth y m =
     (if m = 1 then (if leapYear y then 29 else 28)
      else if m = 3 \<or> m = 5 \<or> m = 8 \<or> m = 10 then 30
      else 31)"

lemma daysInMonth_bounds: "28 \<le> daysInMonth y m \<and> daysInMonth y m \<le> 31"
  by (simp add: daysInMonth_def)

text \<open>
  \<open>new Date(year, month, day)\<close> accepts a day outside the month and rolls it over into
  the neighbouring months (day 0 is the last day of the month before, day 31 of
  February is 3 March or 2 March). \<open>rollDay\<close> does that for a month already in 0..11.
\<close>

function rollDay :: "int \<Rightarrow> int \<Rightarrow> int \<Rightarrow> int \<times> int \<times> int" where
  "rollDay y m d =
     (if d < 1 then
        (let y' = (if m = 0 then y - 1 else y);
             m' = (if m = 0 then 11 else m - 1)
         in rollDay y' m' (d + daysInMonth y' m'))
      else if daysInMonth y m < d then
        rollDay (if m = 11 then y + 1 else y) (if m = 11 then 0 else m + 1)
                (d - daysInMonth y m)
      else (y, m, d))"
  by pat_completeness auto
termination
proof (relation "measure (\<lambda>(y, m, d). if d < 1 then nat (1 - d) + 32 else nat d)")
  show "wf (measure (\<lambda>(y, m, d). if d < 1 then nat (1 - d) + 32 else nat d))"
    by simp
next
  fix y m d y' m' :: int
  assume "d < 1"
    and "y' = (if m = 0 then y - 1 else y)" and "m' = (if m = 0 then 11 else m - 1)"
  then show "((y', m', d + daysInMonth y' m'), (y, m, d))
      \<in> measure (\<lambda>(y, m, d). if d < 1 then nat (1 - d) + 32 else nat d)"
    using daysInMonth_bounds [of y' m'] by auto
next
  fix y m d :: int
  assume "\<not> d < 1" and "daysInMonth y m < d"
  then show "((if m = 11 then y + 1 else y, if m = 11 then 0 else m + 1, d - daysInMonth y m),
       (y, m, d)) \<in> measure (\<lambda>(y, m, d). if d < 1 then nat (1 - d) + 32 else nat d)"
    using daysInMonth_bounds [of y m] by auto
qed

declare rollDay.simps [simp del]

definition newDate :: "int \<Rightarrow> int \<Rightarrow> int \<Rightarrow> Date" where
  "newDate year month day =
     (case rollDay (year + month div 12) (month mod 12) day of
        (y, m, d) \<Rightarrow> \<lparr>getFullYear = y, getMonth = m, getDate = d, getMilliseconds = 0\<rparr>)"

section \<open>StorageRent.ts\<close>

record MonthlyRentRecord =
  vacancy :: bool
  rentAmount :: real
  rentDueDate :: Date

definition calculateNewMonthlyRent :: "real \<Rightarrow> real \<Rightarrow> real" where
  "calculateNewMonthlyRent baseRent rentChangeRate = baseRent * (1 + rentChangeRate)"

text \<open>
  \<open>isLeapYear\<close> is declared at the end of StorageRent.ts and called nowhere; the month
  lengths that the source uses are the Date constructor's.
\<close>

definition isLeapYear :: "int \<Rightarrow> bool" where
  "isLeapYear year \<longleftrightarrow> year mod 4 = 0 \<and> year mod 100 \<noteq> 0"

text \<open>\<open>Math.round\<close> rounds to the nearest integer, a tie towards plus infinity.\<close>

definition roundToTwo :: "real \<Rightarrow> real" where
  "roundToTwo n = of_int \<lfloor>n * 100 + 1 / 2\<rfloor> / 100"

definition clampToLastDayOfMonth :: "Date \<Rightarrow> Date" where
  "clampToLastDayOfMonth d =
     (let year = getFullYear d;
          month = getMonth d;
          desiredDay = getDate d;
          lastDay = getDate (newDate year (month + 1) 0)
      in if desiredDay > lastDay then newDate year month lastDay else d)"

definition nextMonthSameDueDay :: "Date \<Rightarrow> int \<Rightarrow> Date" where
  "nextMonthSameDueDay currentDate dayOfMonth =
     (let month0 = getMonth currentDate + 1;
          year = (if month0 > 11 then getFullYear currentDate + 1 else getFullYear currentDate);
          month = (if month0 > 11 then 0 else month0);
          lastDay = getDate (newDate year (month + 1) 0);
          clampedDay = min dayOfMonth lastDay
      in newDate year month clampedDay)"

text \<open>
  The loop over \<open>rentChangeDates\<close>. \<open>previousDueDate\<close> is \<open>None\<close> for the source's
  \<open>null\<close>, whose \<open>prevTime\<close> is minus infinity: every time value is greater.
\<close>

fun applyAllApplicableRentChanges ::
  "real \<Rightarrow> real \<Rightarrow> Date list \<Rightarrow> Date option \<Rightarrow> Date \<Rightarrow> Date \<Rightarrow> real" where
  "applyAllApplicableRentChanges currentRent rentChangeRate [] previousDueDate
       upcomingDueDate leaseStartDate = currentRent"
| "applyAllApplicableRentChanges currentRent rentChangeRate (cd # rentChangeDates)
       previousDueDate upcomingDueDate leaseStartDate =
     applyAllApplicableRentChanges
       (if (case previousDueDate of None \<Rightarrow> True | Some p \<Rightarrow> getTime cd > getTime p)
           \<and> getTime cd \<le> getTime upcomingDueDate
        then (let occupantIsRenting = (getTime cd \<ge> getTime leaseStartDate)
              in if occupantIsRenting \<and> rentChangeRate > 0
                 then calculateNewMonthlyRent currentRent rentChangeRate
                 else if \<not> occupantIsRenting \<and> rentChangeRate < 0
                 then calculateNewMonthlyRent currentRent rentChangeRate
                 else currentRent)
        else currentRent)
       rentChangeRate rentChangeDates previousDueDate upcomingDueDate leaseStartDate"

text \<open>The inner loop \<open>while (month > 11) { month -= 12; year++; }\<close>.\<close>

function wrapMonth :: "int \<Rightarrow> int \<Rightarrow> int \<times> int" where
  "wrapMonth year month = (if month > 11 then wrapMonth (year + 1) (month - 12) else (year, month))"
  by pat_completeness auto
termination
  by (relation "measure (\<lambda>(year, month). nat month)") auto

declare wrapMonth.simps [simp del]

lemma wrapMonth_key: "wrapMonth y m = (y', m') \<Longrightarrow> 12 * y' + m' = 12 * y + m"
proof (induction y m rule: wrapMonth.induct)
  case (1 year month)
  then show ?case
    by (cases "month > 11") (simp_all add: wrapMonth.simps [of year month])
qed

lemma newDate_first: "newDate y m 1 =
    \<lparr>getFullYear = y + m div 12, getMonth = m mod 12, getDate = 1, getMilliseconds = 0\<rparr>"
  using daysInMonth_bounds [of "y + m div 12" "m mod 12"]
  by (simp add: newDate_def rollDay.simps [of _ _ 1])

text \<open>
  The outer loop of \<open>generateRentChangeDates\<close>, on the loop variables \<open>year\<close> and
  \<open>month\<close>; \<open>changeDate\<close> is \<open>new Date(year, month, 1)\<close> whenever the loop test
  runs. The source enters the loop only after its early return for
  \<open>frequencyMonths <= 0\<close>; the test repeats that condition, which makes the recursion
  well-founded.
\<close>

function changeLoop :: "Date \<Rightarrow> int \<Rightarrow> int \<Rightarrow> int \<Rightarrow> Date list" where
  "changeLoop windowEndDate frequencyMonths year month =
     (if frequencyMonths > 0 \<and> getTime (newDate year month 1) \<le> getTime windowEndDate
      then newDate year month 1 #
           changeLoop windowEndDate frequencyMonths
             (fst (wrapMonth year (month + frequencyMonths)))
             (snd (wrapMonth year (month + frequencyMonths)))
      else [])"
  by pat_completeness auto
termination
proof (relation "measure (\<lambda>(w, f, y, m). nat (12 * getFullYear w + 12 - (12 * y + m)))")
  show "wf (measure (\<lambda>(w, f, y, m). nat (12 * getFullYear w + 12 - (12 * y + m))))"
    by simp
next
  fix windowEndDate :: Date and frequencyMonths year month :: int
  assume a: "0 < frequencyMonths
      \<and> getTime (newDate year month 1) \<le> getTime windowEndDate"
  obtain y' m' where w: "wrapMonth year (month + frequencyMonths) = (y', m')"
    by (cases "wrapMonth year (month + frequencyMonths)")
  have k: "12 * y' + m' = 12 * year + month + frequencyMonths"
    using wrapMonth_key [OF w] by simp
  have "year + month div 12 \<le> getFullYear windowEndDate"
    using a by (auto simp: newDate_first getTime_def less_eq_prod_def)
  moreover have "12 * (month div 12) + month mod 12 = month"
    by simp
  moreover have "month mod 12 \<le> 11"
    by simp
  ultimately have "12 * year + month \<le> 12 * getFullYear windowEndDate + 11"
    by linarith
  with a k w show "((windowEndDate, frequencyMonths,
        fst (wrapMonth year (month + frequencyMonths)),
        snd (wrapMonth year (month + frequencyMonths))),
       (windowEndDate, frequencyMonths, year, month))
      \<in> measure (\<lambda>(w, f, y, m). nat (12 * getFullYear w + 12 - (12 * y + m)))"
    by simp
qed

declare changeLoop.simps [simp del]

definition generateRentChangeDates :: "Date \<Rightarrow> Date \<Rightarrow> int \<Rightarrow> Date list" where
  "generateRentChangeDates windowStartDate windowEndDate frequencyMonths =
     (if frequencyMonths \<le> 0 then []
      else changeLoop windowEndDate frequencyMonths
             (fst (wrapMonth (getFullYear windowStartDate)
                             (getMonth windowStartDate + frequencyMonths)))
             (snd (wrapMonth (getFullYear windowStartDate)
                             (getMonth windowStartDate + frequencyMonths))))"

text \<open>
  Step 4 of \<open>calculateMonthlyRent\<close>: the first payment amount and the second payment
  date, from the rent at the first payment, the lease start and the due day.
\<close>

definition firstPayment :: "real \<Rightarrow> Date \<Rightarrow> int \<Rightarrow> real \<times> Date" where
  "firstPayment occupantMonthlyRentAtFirstPayment leaseStartDate dueDay =
     (let startDay = getDate leaseStartDate
      in if startDay < dueDay then
           (let fraction = real_of_int (dueDay - startDay) / 30
            in (occupantMonthlyRentAtFirstPayment * fraction,
                clampToLastDayOfMonth
                  (newDate (getFullYear leaseStartDate) (getMonth leaseStartDate) dueDay)))
         else if startDay = dueDay then
           (occupantMonthlyRentAtFirstPayment, nextMonthSameDueDay leaseStartDate dueDay)
         else
           (let fraction = 1 - real_of_int (startDay - dueDay) / 30
            in (occupantMonthlyRentAtFirstPayment * fraction,
                nextMonthSameDueDay leaseStartDate dueDay)))"

text \<open>
  Step 5, the loop over the due dates. The state is \<open>iterationSafety\<close>,
  \<open>previousDueDate\<close>, \<open>currentDueDate\<close>, \<open>currentMonthlyRent\<close> and \<open>results\<close>; the
  loop returns the results together with the final \<open>iterationSafety\<close>.
\<close>

function rentLoop ::
  "Date \<Rightarrow> Date \<Rightarrow> Date \<Rightarrow> int \<Rightarrow> real \<Rightarrow> Date list \<Rightarrow>
   nat \<Rightarrow> Date \<Rightarrow> Date \<Rightarrow> real \<Rightarrow> MonthlyRentRecord list \<Rightarrow> MonthlyRentRecord list \<times> nat" where
  "rentLoop leaseStartDate windowStartDate windowEndDate dueDay rentChangeRate rentChangeDates
       iterationSafety previousDueDate currentDueDate currentMonthlyRent results =
     (if iterationSafety < 500 then
        (if getTime currentDueDate > getTime windowEndDate then (results, iterationSafety)
         else rentLoop leaseStartDate windowStartDate windowEndDate dueDay rentChangeRate
                rentChangeDates (iterationSafety + 1) currentDueDate
                (nextMonthSameDueDay currentDueDate dueDay)
                (applyAllApplicableRentChanges currentMonthlyRent rentChangeRate rentChangeDates
                   (Some previousDueDate) currentDueDate leaseStartDate)
                (if getTime currentDueDate \<ge> getTime windowStartDate
                    \<and> getTime currentDueDate \<le> getTime windowEndDate
                 then results @
                   [\<lparr>vacancy = False,
                     rentAmount = roundToTwo
                       (applyAllApplicableRentChanges currentMonthlyRent rentChangeRate
                          rentChangeDates (Some previousDueDate) currentDueDate leaseStartDate),
                     rentDueDate = currentDueDate\<rparr>]
                 else results))
      else (results, iterationSafety))"
  by pat_completeness auto
termination
  by (relation "measure (\<lambda>(l, ws, we, dd, r, cds, i, p, c, m, rs). 500 - i)") auto

declare rentLoop.simps [simp del]

definition calculateMonthlyRent ::
  "real \<Rightarrow> Date \<Rightarrow> Date \<Rightarrow> Date \<Rightarrow> int \<Rightarrow> int \<Rightarrow> real \<Rightarrow> MonthlyRentRecord list" where
  "calculateMonthlyRent baseMonthlyRent leaseStartDate windowStartDate windowEndDate
       dayOfMonthRentDue rentRateChangeFrequency rentChangeRate =
     (if getTime windowStartDate > getTime windowEndDate then []
      else
        let rentChangeDates =
              generateRentChangeDates windowStartDate windowEndDate rentRateChangeFrequency
        in if getTime leaseStartDate > getTime windowEndDate then []
           else
             let firstPaymentDate = leaseStartDate;
                 dueDay = dayOfMonthRentDue;
                 currentMonthlyRent =
                   applyAllApplicableRentChanges baseMonthlyRent rentChangeRate rentChangeDates
                     None firstPaymentDate leaseStartDate;
                 firstPaymentAmount = fst (firstPayment currentMonthlyRent leaseStartDate dueDay);
                 secondPaymentDate = snd (firstPayment currentMonthlyRent leaseStartDate dueDay);
                 results =
                   (if getTime firstPaymentDate \<ge> getTime windowStartDate
                       \<and> getTime firstPaymentDate \<le> getTime windowEndDate
                    then [\<lparr>vacancy = False, rentAmount = roundToTwo firstPaymentAmount,
                           rentDueDate = firstPaymentDate\<rparr>]
                    else [])
             in fst (rentLoop leaseStartDate windowStartDate windowEndDate dueDay rentChangeRate
                       rentChangeDates 0 firstPaymentDate secondPaymentDate currentMonthlyRent
                       results))"

section \<open>Definitions for the statements\<close>

text \<open>
  Every Date of the runtime has the fields of a calendar day and of a time of day. The
  record type has other values too, so the statements that depend on the calendar
  assume this invariant for the Dates that the caller passes in; every Date that
  \<open>newDate\<close> returns has it.
\<close>

definition validDate :: "Date \<Rightarrow> bool" where
  "validDate d \<longleftrightarrow> 0 \<le> getMonth d \<and> getMonth d \<le> 11 \<and> 1 \<le> getDate d
     \<and> getDate d \<le> daysInMonth (getFullYear d) (getMonth d)
     \<and> 0 \<le> getMilliseconds d \<and> getMilliseconds d < 86400000"

text \<open>
  The calendar month after a month, as a pair of year and 0-based month.
\<close>

definition nextMonth :: "int \<times> int \<Rightarrow> int \<times> int" where
  "nextMonth ym = (if snd ym = 11 then (fst ym + 1, 0) else (fst ym, snd ym + 1))"








text \<open>
  A name for \<open>currentMonthlyRent\<close> after step 3 of \<open>calculateMonthlyRent\<close>: the base
  rent after the changes dated up to the first payment.
\<close>

definition rentAtFirstPayment :: "real \<Rightarrow> Date \<Rightarrow> Date \<Rightarrow> Date \<Rightarrow> int \<Rightarrow> real \<Rightarrow> real" where
  "rentAtFirstPayment baseMonthlyRent leaseStartDate windowStartDate windowEndDate
       rentRateChangeFrequency rentChangeRate =
     applyAllApplicableRentChanges baseMonthlyRent rentChangeRate
       (generateRentChangeDates windowStartDate windowEndDate rentRateChangeFrequency)
       None leaseStartDate leaseStartDate"

text \<open>
  A name for \<open>results\<close> before the loop: the first payment's record, if its date is in
  the window.
\<close>

definition firstRecords :: "real \<Rightarrow> Date \<Rightarrow> Date \<Rightarrow> Date \<Rightarrow> MonthlyRentRecord list" where
  "firstRecords firstPaymentAmount firstPaymentDate windowStartDate windowEndDate =
     (if getTime firstPaymentDate \<ge> getTime windowStartDate
         \<and> getTime firstPaymentDate \<le> getTime windowEndDate
      then [\<lparr>vacancy = False, rentAmount = roundToTwo firstPaymentAmount,
             rentDueDate = firstPaymentDate\<rparr>]
      else [])"

text \<open>
  The records that the due-date loop pushes, in order, without the accumulator.
\<close>

function loopRecords ::
  "Date \<Rightarrow> Date \<Rightarrow> Date \<Rightarrow> int \<Rightarrow> real \<Rightarrow> Date list \<Rightarrow>
   nat \<Rightarrow> Date \<Rightarrow> Date \<Rightarrow> real \<Rightarrow> MonthlyRentRecord list" where
  "loopRecords l ws we dd rate cds i p c m =
     (if i < 500 \<and> \<not> getTime c > getTime we then
        (if getTime c \<ge> getTime ws \<and> getTime c \<le> getTime we
         then [\<lparr>vacancy = False,
                rentAmount = roundToTwo (applyAllApplicableRentChanges m rate cds (Some p) c l),
                rentDueDate = c\<rparr>]
         else [])
        @ loopRecords l ws we dd rate cds (i + 1) c (nextMonthSameDueDay c dd)
            (applyAllApplicableRentChanges m rate cds (Some p) c l)
      else [])"
  by pat_completeness auto
termination
  by (relation "measure (\<lambda>(l, ws, we, dd, r, cds, i, p, c, m). 500 - i)") auto

declare loopRecords.simps [simp del]

section \<open>Calendar facts\<close>

lemma rollDay_in_month: "1 \<le> d \<Longrightarrow> d \<le> daysInMonth y m \<Longrightarrow> rollDay y m d = (y, m, d)"
  by (simp add: rollDay.simps [of y m d])

lemma newDate_in_month:
  assumes "0 \<le> m" "m \<le> 11" "1 \<le> d" "d \<le> daysInMonth y m"
  shows "newDate y m d = \<lparr>getFullYear = y, getMonth = m, getDate = d, getMilliseconds = 0\<rparr>"
proof -
  have "m div 12 = 0" "m mod 12 = m" using assms by simp_all
  then show ?thesis using assms by (simp add: newDate_def rollDay_in_month)
qed

lemma lastDay_eq:
  assumes "0 \<le> m" "m \<le> 11"
  shows "getDate (newDate y (m + 1) 0) = daysInMonth y m"
proof (cases "m = 11")
  case True
  have "rollDay (y + 1) 0 0 = rollDay y 11 (daysInMonth y 11)"
    by (simp add: rollDay.simps [of "y + 1" 0 0])
  also have "\<dots> = (y, 11, daysInMonth y 11)"
    using daysInMonth_bounds [of y 11] by (simp add: rollDay_in_month)
  finally show ?thesis using True by (simp add: newDate_def)
next
  case False
  then have m: "(m + 1) div 12 = 0" "(m + 1) mod 12 = m + 1" using assms by simp_all
  have "rollDay y (m + 1) 0 = rollDay y m (daysInMonth y m)"
    using assms by (simp add: rollDay.simps [of y "m + 1" 0])
  also have "\<dots> = (y, m, daysInMonth y m)"
    using daysInMonth_bounds [of y m] by (simp add: rollDay_in_month)
  finally show ?thesis using m by (simp add: newDate_def)
qed

lemma nextMonthSameDueDay_eq:
  assumes "0 \<le> getMonth d" "getMonth d \<le> 11" "1 \<le> dueDay"
  shows "nextMonthSameDueDay d dueDay =
    \<lparr>getFullYear = fst (nextMonth (getFullYear d, getMonth d)),
     getMonth = snd (nextMonth (getFullYear d, getMonth d)),
     getDate = min dueDay (daysInMonth (fst (nextMonth (getFullYear d, getMonth d)))
                                       (snd (nextMonth (getFullYear d, getMonth d)))),
     getMilliseconds = 0\<rparr>"
proof (cases "getMonth d = 11")
  case True
  have "getDate (newDate (getFullYear d + 1) (0 + 1) 0) = daysInMonth (getFullYear d + 1) 0"
    by (rule lastDay_eq) simp_all
  moreover have "newDate (getFullYear d + 1) 0 (min dueDay (daysInMonth (getFullYear d + 1) 0))
     = \<lparr>getFullYear = getFullYear d + 1, getMonth = 0,
        getDate = min dueDay (daysInMonth (getFullYear d + 1) 0), getMilliseconds = 0\<rparr>"
    using assms daysInMonth_bounds [of "getFullYear d + 1" 0] by (intro newDate_in_month) simp_all
  ultimately show ?thesis using True
    by (simp add: nextMonthSameDueDay_def nextMonth_def Let_def)
next
  case False
  then have lt: "getMonth d + 1 \<le> 11" using assms by simp
  have "getDate (newDate (getFullYear d) (getMonth d + 1 + 1) 0)
      = daysInMonth (getFullYear d) (getMonth d + 1)"
    using assms lt by (intro lastDay_eq) simp_all
  moreover have "newDate (getFullYear d) (getMonth d + 1)
       (min dueDay (daysInMonth (getFullYear d) (getMonth d + 1)))
     = \<lparr>getFullYear = getFullYear d, getMonth = getMonth d + 1,
        getDate = min dueDay (daysInMonth (getFullYear d) (getMonth d + 1)),
        getMilliseconds = 0\<rparr>"
    using assms lt daysInMonth_bounds [of "getFullYear d" "getMonth d + 1"]
    by (intro newDate_in_month) simp_all
  ultimately show ?thesis using False lt
    by (simp add: nextMonthSameDueDay_def nextMonth_def Let_def)
qed

lemma rollDay_valid:
  "0 \<le> m \<Longrightarrow> m \<le> 11 \<Longrightarrow> rollDay y m d = (y', m', d') \<Longrightarrow>
   0 \<le> m' \<and> m' \<le> 11 \<and> 1 \<le> d' \<and> d' \<le> daysInMonth y' m'"
proof (induction y m d rule: rollDay.induct)
  case (1 y m d)
  show ?case
  proof (cases "d < 1")
    case True
    then have "rollDay (if m = 0 then y - 1 else y) (if m = 0 then 11 else m - 1)
        (d + daysInMonth (if m = 0 then y - 1 else y) (if m = 0 then 11 else m - 1)) = (y', m', d')"
      using "1.prems"(3) by (simp add: rollDay.simps [of y m d] Let_def)
    then show ?thesis
      using True "1.prems"(1,2) by (intro "1.IH"(1) [OF True refl refl]) auto
  next
    case False
    show ?thesis
    proof (cases "daysInMonth y m < d")
      case True
      then have "rollDay (if m = 11 then y + 1 else y) (if m = 11 then 0 else m + 1)
          (d - daysInMonth y m) = (y', m', d')"
        using False "1.prems"(3) by (simp add: rollDay.simps [of y m d])
      then show ?thesis
        using "1.prems"(1,2) by (intro "1.IH"(2) [OF False True]) auto
    next
      case in_month: False
      then show ?thesis
        using False "1.prems" by (simp add: rollDay.simps [of y m d])
    qed
  qed
qed

lemma rollDay_forward:
  "0 \<le> m \<Longrightarrow> m \<le> 11 \<Longrightarrow> 1 \<le> d \<Longrightarrow> rollDay y m d = (y', m', d') \<Longrightarrow>
   (y' = y \<and> m' = m \<and> d' = d) \<or> 12 * y + m < 12 * y' + m'"
proof (induction y m d rule: rollDay.induct)
  case (1 y m d)
  show ?case
  proof (cases "daysInMonth y m < d")
    case True
    have nl: "\<not> d < 1" using "1.prems" by simp
    have "rollDay (if m = 11 then y + 1 else y) (if m = 11 then 0 else m + 1)
          (d - daysInMonth y m) = (y', m', d')"
      using nl True "1.prems"(4) by (simp add: rollDay.simps [of y m d])
    then have "(y' = (if m = 11 then y + 1 else y) \<and> m' = (if m = 11 then 0 else m + 1)
         \<and> d' = d - daysInMonth y m)
       \<or> 12 * (if m = 11 then y + 1 else y) + (if m = 11 then 0 else m + 1) < 12 * y' + m'"
      using True "1.prems"(1,2) by (intro "1.IH"(2) [OF nl True]) auto
    then show ?thesis
      by (auto split: if_splits)
  next
    case False
    then show ?thesis
      using "1.prems" by (simp add: rollDay.simps [of y m d])
  qed
qed

lemma newDate_valid: "validDate (newDate y m d)"
proof -
  obtain y' m' d' where r: "rollDay (y + m div 12) (m mod 12) d = (y', m', d')"
    by (cases "rollDay (y + m div 12) (m mod 12) d")
  have "0 \<le> m' \<and> m' \<le> 11 \<and> 1 \<le> d' \<and> d' \<le> daysInMonth y' m'"
    by (rule rollDay_valid [OF _ _ r]) simp_all
  then show ?thesis
    by (simp add: newDate_def r validDate_def)
qed

lemma clampToLastDayOfMonth_valid: "validDate d \<Longrightarrow> clampToLastDayOfMonth d = d"
  by (simp add: clampToLastDayOfMonth_def Let_def lastDay_eq validDate_def)

lemma getTime_less_month:
  "0 \<le> getMonth a \<Longrightarrow> getMonth b \<le> 11 \<Longrightarrow>
   12 * getFullYear a + getMonth a < 12 * getFullYear b + getMonth b \<Longrightarrow>
   getTime a < getTime b"
  by (auto simp: getTime_def)

lemma getTime_less_day:
  "getFullYear a = getFullYear b \<Longrightarrow> getMonth a = getMonth b \<Longrightarrow> getDate a < getDate b \<Longrightarrow>
   getTime a < getTime b"
  by (auto simp: getTime_def)

lemma nextMonthSameDueDay_less:
  assumes "0 \<le> getMonth d" "getMonth d \<le> 11" "1 \<le> dueDay"
  shows "getTime d < getTime (nextMonthSameDueDay d dueDay)"
    and "validDate (nextMonthSameDueDay d dueDay)"
proof -
  show "getTime d < getTime (nextMonthSameDueDay d dueDay)"
    using assms
    by (intro getTime_less_month) (simp_all add: nextMonthSameDueDay_eq nextMonth_def)
  show "validDate (nextMonthSameDueDay d dueDay)"
    using assms daysInMonth_bounds [of "fst (nextMonth (getFullYear d, getMonth d))"
        "snd (nextMonth (getFullYear d, getMonth d))"]
    by (simp add: nextMonthSameDueDay_eq validDate_def nextMonth_def)
qed

lemma newDate_same_month_later:
  assumes "0 \<le> getMonth l" "getMonth l \<le> 11" "getDate l < dueDay" "1 \<le> dueDay"
  shows "getTime l < getTime (newDate (getFullYear l) (getMonth l) dueDay)"
proof -
  have m: "getMonth l div 12 = 0" "getMonth l mod 12 = getMonth l"
    using assms by simp_all
  obtain y' m' d' where r: "rollDay (getFullYear l) (getMonth l) dueDay = (y', m', d')"
    by (cases "rollDay (getFullYear l) (getMonth l) dueDay")
  have v: "0 \<le> m' \<and> m' \<le> 11 \<and> 1 \<le> d' \<and> d' \<le> daysInMonth y' m'"
    using assms by (intro rollDay_valid [OF _ _ r]) simp_all
  have "(y' = getFullYear l \<and> m' = getMonth l \<and> d' = dueDay)
      \<or> 12 * getFullYear l + getMonth l < 12 * y' + m'"
    using assms by (intro rollDay_forward [OF _ _ _ r]) simp_all
  then show ?thesis
  proof
    assume "y' = getFullYear l \<and> m' = getMonth l \<and> d' = dueDay"
    then show ?thesis
      using assms by (intro getTime_less_day) (simp_all add: newDate_def m r)
  next
    assume "12 * getFullYear l + getMonth l < 12 * y' + m'"
    then show ?thesis
      using assms v by (intro getTime_less_month) (simp_all add: newDate_def m r)
  qed
qed

lemma secondPaymentDate_later:
  assumes "0 \<le> getMonth l" "getMonth l \<le> 11" "1 \<le> dueDay"
  shows "getTime l < getTime (snd (firstPayment r l dueDay))"
    and "validDate (snd (firstPayment r l dueDay))"
proof -
  show "getTime l < getTime (snd (firstPayment r l dueDay))"
  proof (cases "getDate l < dueDay")
    case True
    then show ?thesis
      using assms
      by (simp add: firstPayment_def Let_def clampToLastDayOfMonth_valid newDate_valid
            newDate_same_month_later)
  next
    case False
    then show ?thesis
      using assms by (simp add: firstPayment_def Let_def nextMonthSameDueDay_less)
  qed
  show "validDate (snd (firstPayment r l dueDay))"
    using assms
    by (simp add: firstPayment_def Let_def clampToLastDayOfMonth_valid newDate_valid
          nextMonthSameDueDay_less)
qed

section \<open>The rent-change applier in closed form\<close>








section \<open>The rent-change schedule\<close>










section \<open>The due-date loop\<close>

lemma rentLoop_stop:
  "\<not> i < 500 \<or> getTime c > getTime we \<Longrightarrow> rentLoop l ws we dd rate cds i p c m rs = (rs, i)"
  by (subst rentLoop.simps) auto

lemma rentLoop_step:
  "i < 500 \<Longrightarrow> \<not> getTime c > getTime we \<Longrightarrow>
   rentLoop l ws we dd rate cds i p c m rs =
   rentLoop l ws we dd rate cds (i + 1) c (nextMonthSameDueDay c dd)
     (applyAllApplicableRentChanges m rate cds (Some p) c l)
     (if getTime c \<ge> getTime ws \<and> getTime c \<le> getTime we
      then rs @ [\<lparr>vacancy = False,
                   rentAmount = roundToTwo (applyAllApplicableRentChanges m rate cds (Some p) c l),
                   rentDueDate = c\<rparr>]
      else rs)"
  by (subst rentLoop.simps) simp

lemma rentLoop_window:
  assumes "\<forall>r \<in> set rs. getTime ws \<le> getTime (rentDueDate r) \<and> getTime (rentDueDate r) \<le> getTime we"
  shows "\<forall>r \<in> set (fst (rentLoop l ws we dd rate cds i p c m rs)).
           getTime ws \<le> getTime (rentDueDate r) \<and> getTime (rentDueDate r) \<le> getTime we"
  using assms
proof (induction l ws we dd rate cds i p c m rs rule: rentLoop.induct)
  case (1 l ws we dd rate cds i p c m rs)
  show ?case
  proof (cases "i < 500 \<and> \<not> getTime c > getTime we")
    case True
    let ?rs = "(if getTime c \<ge> getTime ws \<and> getTime c \<le> getTime we
      then rs @ [\<lparr>vacancy = False,
                   rentAmount = roundToTwo (applyAllApplicableRentChanges m rate cds (Some p) c l),
                   rentDueDate = c\<rparr>]
      else rs)"
    have "\<forall>r \<in> set ?rs. getTime ws \<le> getTime (rentDueDate r) \<and> getTime (rentDueDate r) \<le> getTime we"
      using "1.prems" by simp
    then have "\<forall>r \<in> set (fst (rentLoop l ws we dd rate cds (i + 1) c (nextMonthSameDueDay c dd)
         (applyAllApplicableRentChanges m rate cds (Some p) c l) ?rs)).
           getTime ws \<le> getTime (rentDueDate r) \<and> getTime (rentDueDate r) \<le> getTime we"
      using True by (intro "1.IH") simp_all
    moreover have "rentLoop l ws we dd rate cds i p c m rs =
        rentLoop l ws we dd rate cds (i + 1) c (nextMonthSameDueDay c dd)
         (applyAllApplicableRentChanges m rate cds (Some p) c l) ?rs"
      using True by (intro rentLoop_step) simp_all
    ultimately show ?thesis
      by simp
  next
    case False
    then have "rentLoop l ws we dd rate cds i p c m rs = (rs, i)"
      by (intro rentLoop_stop) auto
    then show ?thesis
      using "1.prems" by simp
  qed
qed



lemma loopRecords_stop:
  "\<not> i < 500 \<or> getTime c > getTime we \<Longrightarrow> loopRecords l ws we dd rate cds i p c m = []"
  by (subst loopRecords.simps) auto

lemma loopRecords_step:
  "i < 500 \<Longrightarrow> \<not> getTime c > getTime we \<Longrightarrow>
   loopRecords l ws we dd rate cds i p c m =
     (if getTime c \<ge> getTime ws \<and> getTime c \<le> getTime we
      then [\<lparr>vacancy = False,
             rentAmount = roundToTwo (applyAllApplicableRentChanges m rate cds (Some p) c l),
             rentDueDate = c\<rparr>]
      else [])
     @ loopRecords l ws we dd rate cds (i + 1) c (nextMonthSameDueDay c dd)
         (applyAllApplicableRentChanges m rate cds (Some p) c l)"
  by (subst loopRecords.simps) simp

lemma rentLoop_records:
  "fst (rentLoop l ws we dd rate cds i p c m rs) = rs @ loopRecords l ws we dd rate cds i p c m"
proof (induction l ws we dd rate cds i p c m rs rule: rentLoop.induct)
  case (1 l ws we dd rate cds i p c m rs)
  show ?case
  proof (cases "i < 500 \<and> \<not> getTime c > getTime we")
    case True
    let ?rs = "(if getTime c \<ge> getTime ws \<and> getTime c \<le> getTime we
      then rs @ [\<lparr>vacancy = False,
                   rentAmount = roundToTwo (applyAllApplicableRentChanges m rate cds (Some p) c l),
                   rentDueDate = c\<rparr>]
      else rs)"
    have "fst (rentLoop l ws we dd rate cds (i + 1) c (nextMonthSameDueDay c dd)
         (applyAllApplicableRentChanges m rate cds (Some p) c l) ?rs) =
       ?rs @ loopRecords l ws we dd rate cds (i + 1) c (nextMonthSameDueDay c dd)
         (applyAllApplicableRentChanges m rate cds (Some p) c l)"
      using True by (intro "1.IH") simp_all
    moreover have "rentLoop l ws we dd rate cds i p c m rs =
        rentLoop l ws we dd rate cds (i + 1) c (nextMonthSameDueDay c dd)
         (applyAllApplicableRentChanges m rate cds (Some p) c l) ?rs"
      using True by (intro rentLoop_step) simp_all
    moreover have "loopRecords l ws we dd rate cds i p c m =
       (if getTime c \<ge> getTime ws \<and> getTime c \<le> getTime we
        then [\<lparr>vacancy = False,
             rentAmount = roundToTwo (applyAllApplicableRentChanges m rate cds (Some p) c l),
             rentDueDate = c\<rparr>]
        else [])
       @ loopRecords l ws we dd rate cds (i + 1) c (nextMonthSameDueDay c dd)
           (applyAllApplicableRentChanges m rate cds (Some p) c l)"
      using True by (intro loopRecords_step) simp_all
    ultimately show ?thesis
      by simp
  next
    case False
    then have "rentLoop l ws we dd rate cds i p c m rs = (rs, i)"
      by (intro rentLoop_stop) auto
    moreover have "loopRecords l ws we dd rate cds i p c m = []"
      using False by (intro loopRecords_stop) auto
    ultimately show ?thesis
      by simp
  qed
qed

lemma loopRecords_sorted:
  assumes "0 \<le> getMonth c" "getMonth c \<le> 11" "1 \<le> dd"
  shows "sorted_wrt (\<lambda>a b. getTime (rentDueDate a) < getTime (rentDueDate b))
           (loopRecords l ws we dd rate cds i p c m)
         \<and> (\<forall>r \<in> set (loopRecords l ws we dd rate cds i p c m).
               getTime c \<le> getTime (rentDueDate r))"
  using assms
proof (induction l ws we dd rate cds i p c m rule: loopRecords.induct)
  case (1 l ws we dd rate cds i p c m)
  show ?case
  proof (cases "i < 500 \<and> \<not> getTime c > getTime we")
    case True
    let ?n = "nextMonthSameDueDay c dd"
    let ?rest = "loopRecords l ws we dd rate cds (i + 1) c ?n
         (applyAllApplicableRentChanges m rate cds (Some p) c l)"
    have lt: "getTime c < getTime ?n" and v: "validDate ?n"
      using "1.prems" by (simp_all add: nextMonthSameDueDay_less)
    have ih: "sorted_wrt (\<lambda>a b. getTime (rentDueDate a) < getTime (rentDueDate b)) ?rest
         \<and> (\<forall>r \<in> set ?rest. getTime ?n \<le> getTime (rentDueDate r))"
      using True v "1.prems" by (intro "1.IH") (simp_all add: validDate_def)
    have after: "\<forall>r \<in> set ?rest. getTime c < getTime (rentDueDate r)"
      using ih lt by (meson less_le_trans)
    have step: "loopRecords l ws we dd rate cds i p c m =
       (if getTime c \<ge> getTime ws \<and> getTime c \<le> getTime we
        then [\<lparr>vacancy = False,
             rentAmount = roundToTwo (applyAllApplicableRentChanges m rate cds (Some p) c l),
             rentDueDate = c\<rparr>]
        else []) @ ?rest"
      using True by (intro loopRecords_step) simp_all
    show ?thesis
      unfolding step using ih after by (auto simp: sorted_wrt_append less_imp_le)
  next
    case False
    then have "loopRecords l ws we dd rate cds i p c m = []"
      by (intro loopRecords_stop) auto
    then show ?thesis
      by simp
  qed
qed


lemma calculateMonthlyRent_empty:
  "getTime windowStartDate > getTime windowEndDate \<or> getTime leaseStartDate > getTime windowEndDate
   \<Longrightarrow> calculateMonthlyRent b leaseStartDate windowStartDate windowEndDate dd f rate = []"
  by (auto simp: calculateMonthlyRent_def Let_def)

lemma calculateMonthlyRent_loop:
  "\<not> getTime ws > getTime we \<Longrightarrow> \<not> getTime l > getTime we \<Longrightarrow>
   calculateMonthlyRent b l ws we dd f rate =
     fst (rentLoop l ws we dd rate (generateRentChangeDates ws we f) 0 l
            (snd (firstPayment (rentAtFirstPayment b l ws we f rate) l dd))
            (rentAtFirstPayment b l ws we f rate)
            (firstRecords (fst (firstPayment (rentAtFirstPayment b l ws we f rate) l dd)) l ws we))"
  by (simp add: calculateMonthlyRent_def Let_def rentAtFirstPayment_def firstRecords_def)

lemma calculateMonthlyRent_records:
  assumes "\<not> getTime ws > getTime we" "\<not> getTime l > getTime we"
  shows "calculateMonthlyRent b l ws we dd f rate =
     firstRecords (fst (firstPayment (rentAtFirstPayment b l ws we f rate) l dd)) l ws we
     @ loopRecords l ws we dd rate (generateRentChangeDates ws we f) 0 l
         (snd (firstPayment (rentAtFirstPayment b l ws we f rate) l dd))
         (rentAtFirstPayment b l ws we f rate)"
  using assms by (simp add: calculateMonthlyRent_loop rentLoop_records)

section \<open>The claims\<close>

text \<open>
  C1. A due day beyond the length of the target month resolves to that month's last
  day, both for the second payment in the lease's own month (\<open>startDay < dueDay\<close>, via
  \<open>clampToLastDayOfMonth\<close>) and when a due date advances into the next month. The
  source does not do this in the first of the two paths: \<open>new Date(year, month, dueDay)\<close>
  has already rolled over into the following month when \<open>clampToLastDayOfMonth\<close> reads
  it, so nothing is clamped. For a lease starting on 10 February 2023 with due day 31,
  February has 28 days and the second payment date is 3 March 2023, not 28 February;
  the window 1 January to 30 April 2023 then holds the due dates 10 February, 3 March
  and 30 April. On every Date that the constructor returns, \<open>clampToLastDayOfMonth\<close>
  is the identity.
\<close>

theorem C1_same_month_due_day_not_clamped:
  "snd (firstPayment r \<lparr>getFullYear = 2023, getMonth = 1, getDate = 10, getMilliseconds = 0\<rparr> 31)
     = \<lparr>getFullYear = 2023, getMonth = 2, getDate = 3, getMilliseconds = 0\<rparr>
   \<and> daysInMonth 2023 1 = 28
   \<and> map rentDueDate (calculateMonthlyRent 100
        \<lparr>getFullYear = 2023, getMonth = 1, getDate = 10, getMilliseconds = 0\<rparr>
        \<lparr>getFullYear = 2023, getMonth = 0, getDate = 1, getMilliseconds = 0\<rparr>
        \<lparr>getFullYear = 2023, getMonth = 3, getDate = 30, getMilliseconds = 0\<rparr> 31 0 0)
     = [\<lparr>getFullYear = 2023, getMonth = 1, getDate = 10, getMilliseconds = 0\<rparr>,
        \<lparr>getFullYear = 2023, getMonth = 2, getDate = 3, getMilliseconds = 0\<rparr>,
        \<lparr>getFullYear = 2023, getMonth = 3, getDate = 30, getMilliseconds = 0\<rparr>]
   \<and> clampToLastDayOfMonth (newDate year month day) = newDate year month day"
proof -
  have e: "snd (firstPayment r
        \<lparr>getFullYear = 2023, getMonth = 1, getDate = 10, getMilliseconds = 0\<rparr> 31)
     = \<lparr>getFullYear = 2023, getMonth = 2, getDate = 3, getMilliseconds = 0\<rparr>
   \<and> daysInMonth 2023 1 = 28
   \<and> map rentDueDate (calculateMonthlyRent 100
        \<lparr>getFullYear = 2023, getMonth = 1, getDate = 10, getMilliseconds = 0\<rparr>
        \<lparr>getFullYear = 2023, getMonth = 0, getDate = 1, getMilliseconds = 0\<rparr>
        \<lparr>getFullYear = 2023, getMonth = 3, getDate = 30, getMilliseconds = 0\<rparr> 31 0 0)
     = [\<lparr>getFullYear = 2023, getMonth = 1, getDate = 10, getMilliseconds = 0\<rparr>,
        \<lparr>getFullYear = 2023, getMonth = 2, getDate = 3, getMilliseconds = 0\<rparr>,
        \<lparr>getFullYear = 2023, getMonth = 3, getDate = 30, getMilliseconds = 0\<rparr>]"
    by code_simp
  have c: "clampToLastDayOfMonth (newDate year month day) = newDate year month day"
    by (simp add: clampToLastDayOfMonth_valid newDate_valid)
  from e c show ?thesis
    by blast
qed





text \<open>
  C4. For a valid lease start and a due day of at least 1, the due dates of the
  returned records increase strictly in the order of the records: the second payment
  date is later than the lease start, and every due date of the loop is earlier than
  the next one.
\<close>

theorem C4_due_dates_increase:
  assumes "validDate leaseStartDate" and "1 \<le> dayOfMonthRentDue"
  shows "sorted_wrt (\<lambda>a b. getTime (rentDueDate a) < getTime (rentDueDate b))
           (calculateMonthlyRent baseMonthlyRent leaseStartDate windowStartDate windowEndDate
              dayOfMonthRentDue rentRateChangeFrequency rentChangeRate)
       \<and> getTime leaseStartDate
           < getTime (snd (firstPayment r leaseStartDate dayOfMonthRentDue))
       \<and> (validDate currentDueDate \<longrightarrow>
            getTime currentDueDate
              < getTime (nextMonthSameDueDay currentDueDate dayOfMonthRentDue))"
proof (intro conjI impI)
  show "getTime leaseStartDate < getTime (snd (firstPayment r leaseStartDate dayOfMonthRentDue))"
    using assms by (simp add: secondPaymentDate_later validDate_def)
next
  assume "validDate currentDueDate"
  then show "getTime currentDueDate
      < getTime (nextMonthSameDueDay currentDueDate dayOfMonthRentDue)"
    using assms(2) by (simp add: nextMonthSameDueDay_less validDate_def)
next
  show "sorted_wrt (\<lambda>a b. getTime (rentDueDate a) < getTime (rentDueDate b))
           (calculateMonthlyRent baseMonthlyRent leaseStartDate windowStartDate windowEndDate
              dayOfMonthRentDue rentRateChangeFrequency rentChangeRate)"
  proof (cases "getTime windowStartDate > getTime windowEndDate
                \<or> getTime leaseStartDate > getTime windowEndDate")
    case True
    then show ?thesis
      by (simp add: calculateMonthlyRent_empty)
  next
    case False
    let ?r = "rentAtFirstPayment baseMonthlyRent leaseStartDate windowStartDate windowEndDate
        rentRateChangeFrequency rentChangeRate"
    let ?second = "snd (firstPayment ?r leaseStartDate dayOfMonthRentDue)"
    let ?rest = "loopRecords leaseStartDate windowStartDate windowEndDate dayOfMonthRentDue
        rentChangeRate (generateRentChangeDates windowStartDate windowEndDate rentRateChangeFrequency)
        0 leaseStartDate ?second ?r"
    let ?first = "firstRecords (fst (firstPayment ?r leaseStartDate dayOfMonthRentDue))
        leaseStartDate windowStartDate windowEndDate"
    have m: "0 \<le> getMonth leaseStartDate" "getMonth leaseStartDate \<le> 11"
      using assms by (simp_all add: validDate_def)
    have lt: "getTime leaseStartDate < getTime ?second" and v: "validDate ?second"
      using m assms(2) by (simp_all add: secondPaymentDate_later)
    have rest: "sorted_wrt (\<lambda>a b. getTime (rentDueDate a) < getTime (rentDueDate b)) ?rest
        \<and> (\<forall>r \<in> set ?rest. getTime ?second \<le> getTime (rentDueDate r))"
      using v assms(2) by (intro loopRecords_sorted) (simp_all add: validDate_def)
    then have after: "\<forall>r \<in> set ?rest. getTime leaseStartDate < getTime (rentDueDate r)"
      using lt by (meson less_le_trans)
    have eq: "calculateMonthlyRent baseMonthlyRent leaseStartDate windowStartDate windowEndDate
        dayOfMonthRentDue rentRateChangeFrequency rentChangeRate = ?first @ ?rest"
      using False by (intro calculateMonthlyRent_records) simp_all
    show ?thesis
      unfolding eq using rest after by (auto simp: sorted_wrt_append firstRecords_def)
  qed
qed

theorem C4_due_dates_increase_witness:
  "validDate \<lparr>getFullYear = 2023, getMonth = 0, getDate = 1, getMilliseconds = 0\<rparr>
   \<and> (1::int) \<le> 15
   \<and> calculateMonthlyRent 100
        \<lparr>getFullYear = 2023, getMonth = 0, getDate = 1, getMilliseconds = 0\<rparr>
        \<lparr>getFullYear = 2023, getMonth = 0, getDate = 1, getMilliseconds = 0\<rparr>
        \<lparr>getFullYear = 2023, getMonth = 2, getDate = 31, getMilliseconds = 0\<rparr> 15 1 (1 / 10) \<noteq> []
   \<and> sorted_wrt (\<lambda>a b. getTime (rentDueDate a) < getTime (rentDueDate b))
       (calculateMonthlyRent 100
          \<lparr>getFullYear = 2023, getMonth = 0, getDate = 1, getMilliseconds = 0\<rparr>
          \<lparr>getFullYear = 2023, getMonth = 0, getDate = 1, getMilliseconds = 0\<rparr>
          \<lparr>getFullYear = 2023, getMonth = 2, getDate = 31, getMilliseconds = 0\<rparr> 15 1 (1 / 10))
   \<and> validDate \<lparr>getFullYear = 2023, getMonth = 0, getDate = 31, getMilliseconds = 0\<rparr>
   \<and> getTime \<lparr>getFullYear = 2023, getMonth = 0, getDate = 31, getMilliseconds = 0\<rparr>
       < getTime (nextMonthSameDueDay
           \<lparr>getFullYear = 2023, getMonth = 0, getDate = 31, getMilliseconds = 0\<rparr> 15)"
proof -
  have v: "validDate \<lparr>getFullYear = 2023, getMonth = 0, getDate = 1, getMilliseconds = 0\<rparr>"
    and c: "validDate \<lparr>getFullYear = 2023, getMonth = 0, getDate = 31, getMilliseconds = 0\<rparr>"
    by (simp_all add: validDate_def daysInMonth_def)
  have d: "(1::int) \<le> 15"
    by simp
  have n: "calculateMonthlyRent 100
        \<lparr>getFullYear = 2023, getMonth = 0, getDate = 1, getMilliseconds = 0\<rparr>
        \<lparr>getFullYear = 2023, getMonth = 0, getDate = 1, getMilliseconds = 0\<rparr>
        \<lparr>getFullYear = 2023, getMonth = 2, getDate = 31, getMilliseconds = 0\<rparr> 15 1 (1 / 10) \<noteq> []"
    by code_simp
  show ?thesis
    using v c n C4_due_dates_increase [OF v d, where
        currentDueDate = "\<lparr>getFullYear = 2023, getMonth = 0, getDate = 31, getMilliseconds = 0\<rparr>"]
    by simp
qed

text \<open>
  C5. Every returned record has its due date inside the observation window, bounds
  included.
\<close>

theorem C5_window_containment:
  "\<forall>r \<in> set (calculateMonthlyRent baseMonthlyRent leaseStartDate windowStartDate windowEndDate
                    dayOfMonthRentDue rentRateChangeFrequency rentChangeRate).
     getTime windowStartDate \<le> getTime (rentDueDate r)
     \<and> getTime (rentDueDate r) \<le> getTime windowEndDate"
proof (cases "getTime windowStartDate > getTime windowEndDate
              \<or> getTime leaseStartDate > getTime windowEndDate")
  case True
  then show ?thesis
    by (simp add: calculateMonthlyRent_empty)
next
  case False
  then have eq: "calculateMonthlyRent baseMonthlyRent leaseStartDate windowStartDate
      windowEndDate dayOfMonthRentDue rentRateChangeFrequency rentChangeRate =
    fst (rentLoop leaseStartDate windowStartDate windowEndDate dayOfMonthRentDue rentChangeRate
      (generateRentChangeDates windowStartDate windowEndDate rentRateChangeFrequency) 0
      leaseStartDate
      (snd (firstPayment (rentAtFirstPayment baseMonthlyRent leaseStartDate windowStartDate
         windowEndDate rentRateChangeFrequency rentChangeRate) leaseStartDate dayOfMonthRentDue))
      (rentAtFirstPayment baseMonthlyRent leaseStartDate windowStartDate
         windowEndDate rentRateChangeFrequency rentChangeRate)
      (firstRecords (fst (firstPayment (rentAtFirstPayment baseMonthlyRent leaseStartDate
         windowStartDate windowEndDate rentRateChangeFrequency rentChangeRate) leaseStartDate
         dayOfMonthRentDue)) leaseStartDate windowStartDate windowEndDate))"
    by (intro calculateMonthlyRent_loop) simp_all
  have "\<forall>r \<in> set (firstRecords a leaseStartDate windowStartDate windowEndDate).
     getTime windowStartDate \<le> getTime (rentDueDate r)
     \<and> getTime (rentDueDate r) \<le> getTime windowEndDate" for a
    by (simp add: firstRecords_def)
  then show ?thesis
    unfolding eq by (rule rentLoop_window)
qed

theorem C5_window_containment_witness:
  "\<lparr>vacancy = False, rentAmount = 100,
      rentDueDate = \<lparr>getFullYear = 2023, getMonth = 1, getDate = 10, getMilliseconds = 0\<rparr>\<rparr>
     \<in> set (calculateMonthlyRent 100
          \<lparr>getFullYear = 2023, getMonth = 0, getDate = 20, getMilliseconds = 0\<rparr>
          \<lparr>getFullYear = 2023, getMonth = 1, getDate = 1, getMilliseconds = 0\<rparr>
          \<lparr>getFullYear = 2023, getMonth = 2, getDate = 31, getMilliseconds = 0\<rparr> 10 0 0)
   \<and> getTime \<lparr>getFullYear = 2023, getMonth = 1, getDate = 1, getMilliseconds = 0\<rparr>
       \<le> getTime \<lparr>getFullYear = 2023, getMonth = 1, getDate = 10, getMilliseconds = 0\<rparr>
   \<and> getTime \<lparr>getFullYear = 2023, getMonth = 1, getDate = 10, getMilliseconds = 0\<rparr>
       \<le> getTime \<lparr>getFullYear = 2023, getMonth = 2, getDate = 31, getMilliseconds = 0\<rparr>"
proof -
  have m: "\<lparr>vacancy = False, rentAmount = 100,
      rentDueDate = \<lparr>getFullYear = 2023, getMonth = 1, getDate = 10, getMilliseconds = 0\<rparr>\<rparr>
     \<in> set (calculateMonthlyRent 100
          \<lparr>getFullYear = 2023, getMonth = 0, getDate = 20, getMilliseconds = 0\<rparr>
          \<lparr>getFullYear = 2023, getMonth = 1, getDate = 1, getMilliseconds = 0\<rparr>
          \<lparr>getFullYear = 2023, getMonth = 2, getDate = 31, getMilliseconds = 0\<rparr> 10 0 0)"
    by code_simp
  from C5_window_containment [rule_format, OF m] m show ?thesis
    by simp
qed





text \<open>
  C8. The scenario with base rent 300, lease start 15 June 2023, window 1 April to
  31 August 2023, due day 15, a change every month and rate -0.1: three records of
  243.00, due on 15 June, 15 July and 15 August. The schedule is 1 May, 1 June, 1 July
  and 1 August; the first two fall before the lease start and lower the rent to 243,
  the last two fall in the occupied period and change nothing.
\<close>

theorem C8_vacant_decrease_scenario:
  "calculateMonthlyRent 300
     \<lparr>getFullYear = 2023, getMonth = 5, getDate = 15, getMilliseconds = 0\<rparr>
     \<lparr>getFullYear = 2023, getMonth = 3, getDate = 1, getMilliseconds = 0\<rparr>
     \<lparr>getFullYear = 2023, getMonth = 7, getDate = 31, getMilliseconds = 0\<rparr>
     15 1 (- 1 / 10) =
   [\<lparr>vacancy = False, rentAmount = 243,
      rentDueDate = \<lparr>getFullYear = 2023, getMonth = 5, getDate = 15, getMilliseconds = 0\<rparr>\<rparr>,
    \<lparr>vacancy = False, rentAmount = 243,
      rentDueDate = \<lparr>getFullYear = 2023, getMonth = 6, getDate = 15, getMilliseconds = 0\<rparr>\<rparr>,
    \<lparr>vacancy = False, rentAmount = 243,
      rentDueDate = \<lparr>getFullYear = 2023, getMonth = 7, getDate = 15, getMilliseconds = 0\<rparr>\<rparr>]
   \<and> generateRentChangeDates
     \<lparr>getFullYear = 2023, getMonth = 3, getDate = 1, getMilliseconds = 0\<rparr>
     \<lparr>getFullYear = 2023, getMonth = 7, getDate = 31, getMilliseconds = 0\<rparr> 1 =
   [\<lparr>getFullYear = 2023, getMonth = 4, getDate = 1, getMilliseconds = 0\<rparr>,
    \<lparr>getFullYear = 2023, getMonth = 5, getDate = 1, getMilliseconds = 0\<rparr>,
    \<lparr>getFullYear = 2023, getMonth = 6, getDate = 1, getMilliseconds = 0\<rparr>,
    \<lparr>getFullYear = 2023, getMonth = 7, getDate = 1, getMilliseconds = 0\<rparr>]"
  by code_simp




end
